theory Spec2Isabelle
  imports Main "HOL-Library.Log_Nat"
begin

section \<open>The light entity of the Philips air purifier integration\<close>

text \<open>
  A shallow embedding of \<^verbatim>\<open>custom_components/philips_airpurifier_coap/light.py\<close>:
  the class \<^verbatim>\<open>PhilipsLight\<close> with its constructor, the two properties
  \<^verbatim>\<open>is_on\<close> and \<^verbatim>\<open>brightness\<close>, and the two commands
  \<^verbatim>\<open>async_turn_on\<close> and \<^verbatim>\<open>async_turn_off\<close>.

  Python integers are \<open>int\<close>. An attribute that may hold \<^verbatim>\<open>None\<close> is an
  \<open>option\<close>. Every exception the methods can raise is a value of \<open>py_error\<close>, and a
  method returns its result together with the object after the call, because a failing
  call keeps the attribute assignments it made before it failed.
\<close>

subsection \<open>Values, errors and constants\<close>

datatype py_error =
  TypeError | ZeroDivisionError | OverflowError | UnboundLocalError | PlatformNotReady

text \<open>
  Modelled from the spec: the constant \<^verbatim>\<open>SWITCH_AUTO\<close> of \<^verbatim>\<open>const.py\<close>, which
  is not part of the sources at hand; it is the name of the single effect, \<^verbatim>\<open>"auto"\<close>.
  \<^verbatim>\<open>EFFECT_OFF\<close> is Home Assistant's constant \<^verbatim>\<open>"off"\<close>.
\<close>

definition SWITCH_AUTO :: string where
  "SWITCH_AUTO = ''auto''"

definition EFFECT_OFF :: string where
  "EFFECT_OFF = ''off''"

text \<open>
  Python's truth test on an attribute that holds an integer or \<^verbatim>\<open>None\<close>:
  \<^verbatim>\<open>if self._auto\<close> fails for \<^verbatim>\<open>None\<close> and for \<^verbatim>\<open>0\<close>.
\<close>

definition truthy :: "int option \<Rightarrow> bool" where
  "truthy x = (case x of None \<Rightarrow> False | Some v \<Rightarrow> v \<noteq> 0)"

text \<open>
  The nearest integer to the quotient of two integers, a tie going to the even
  neighbour. This is the rounding of \<^verbatim>\<open>round\<close> on a double, and also the rounding
  of the division itself, there applied to the 53-bit mantissa.
\<close>

definition round_half_even :: "int \<Rightarrow> int \<Rightarrow> int" where
  "round_half_even a b =
     (let n = (if b < 0 then - a else a);
          d = \<bar>b\<bar>;
          q = n div d;
          r = n mod d
      in if 2 * r < d then q
         else if d < 2 * r then q + 1
         else if even q then q else q + 1)"

text \<open>
  The binary exponent of a positive quotient: the \<open>e\<close> with
  \<open>2 ^ e \<le> n / d < 2 ^ (e + 1)\<close>. It is the difference of the bit lengths
  (\<open>bitlen\<close> is Python's \<^verbatim>\<open>int.bit_length\<close>) or one less. A power with a negative
  exponent is moved to the other side of the comparison.
\<close>

definition floor_log2 :: "int \<Rightarrow> int \<Rightarrow> int" where
  "floor_log2 n d =
     (let e = bitlen n - bitlen d
      in if d * 2 ^ nat e \<le> n * 2 ^ nat (- e) then e else e - 1)"

text \<open>
  \<^verbatim>\<open>round(a / b)\<close> on two integers, as Python computes it. The division raises
  \<^verbatim>\<open>ZeroDivisionError\<close> for \<open>b = 0\<close>. Otherwise it yields the double nearest to
  the exact quotient (a tie going to the even mantissa): with \<open>s\<close> the exponent of the
  unit in the last place, 52 below the exponent of the quotient and never below
  \<open>- 1074\<close> (the subnormal doubles), that double is \<open>m * 2 ^ s\<close> for the quotient
  rounded to a multiple \<open>m\<close> of \<open>2 ^ s\<close>. A result of \<open>2 ^ 1024\<close> or more does not
  fit a double and the division raises \<^verbatim>\<open>OverflowError\<close>. Then
  \<^verbatim>\<open>round\<close> takes the integer nearest to the double, a tie going to the even one.
  Sign and magnitude are independent in both steps.
\<close>

definition py_round_div :: "int \<Rightarrow> int \<Rightarrow> py_error + int" where
  "py_round_div a b =
     (if b = 0 then Inl ZeroDivisionError
      else
        let n = \<bar>a\<bar>;
            d = \<bar>b\<bar>;
            s = max (floor_log2 n d - 52) (- 1074);
            m = round_half_even (n * 2 ^ nat (- s)) (d * 2 ^ nat s)
        in if 2 ^ 1024 \<le> m * 2 ^ nat s then Inl OverflowError
           else Inr (sgn a * sgn b * round_half_even (m * 2 ^ nat s) (2 ^ nat (- s))))"

subsection \<open>The description of a light and the entity\<close>

text \<open>
  One entry of \<^verbatim>\<open>LIGHT_TYPES\<close>. The table is in \<^verbatim>\<open>const.py\<close>, so an entry is a
  parameter of the model; each field is the result of \<^verbatim>\<open>self._description.get(KEY)\<close>,
  \<open>None\<close> when the entry has no such key.
\<close>

record light_description =
  get_SWITCH_ON :: "int option"
  get_SWITCH_OFF :: "int option"
  get_SWITCH_MEDIUM :: "int option"
  get_SWITCH_AUTO :: "int option"
  get_DIMMABLE :: "bool option"

text \<open>The attributes of a \<^verbatim>\<open>PhilipsLight\<close> that its methods read or assign.\<close>

record PhilipsLight =
  self_on :: "int option"
  self_off :: "int option"
  self_medium :: "int option"
  self_auto :: "int option"
  self_dimmable :: bool
  self_attr_effect_list :: "string list option"
  self_attr_effect :: "string option"
  self_kind :: string

text \<open>
  The snapshot of the device, \<^verbatim>\<open>self._device_status\<close>: control key to raw integer.
  The keyword arguments of \<^verbatim>\<open>async_turn_on\<close>: a field is \<open>None\<close> when the key is
  not in \<^verbatim>\<open>kwargs\<close>. A write is the pair handed to
  \<^verbatim>\<open>coordinator.client.set_control_value\<close>.
\<close>

type_synonym device_status = "string \<rightharpoonup> int"

record kwargs =
  ATTR_EFFECT :: "string option"
  ATTR_BRIGHTNESS :: "int option"

type_synonym control_write = "string \<times> int option"

subsection \<open>The constructor\<close>

text \<open>
  \<^verbatim>\<open>__init__\<close>. \<open>device_id\<close> is the outcome of
  \<^verbatim>\<open>self._device_status[PhilipsApi.DEVICE_ID]\<close>: \<open>None\<close> when the lookup raises,
  which the constructor turns into \<^verbatim>\<open>PlatformNotReady\<close>. The medium and auto values
  are cleared only where \<^verbatim>\<open>self._dimmable is None\<close>. The display attributes (name,
  icon, device class, entity category, colour mode, unique id) are left out: no method
  below reads them. \<^verbatim>\<open>self.kind\<close> is the light key up to its first \<^verbatim>\<open>#\<close>.
\<close>

definition PhilipsLight_init ::
  "string option \<Rightarrow> light_description \<Rightarrow> string \<Rightarrow> py_error + PhilipsLight" where
  "PhilipsLight_init device_id description light =
     (let dimmable = (case get_DIMMABLE description of None \<Rightarrow> False | Some b \<Rightarrow> b);
          medium = (case get_DIMMABLE description of
                      None \<Rightarrow> None | Some b \<Rightarrow> get_SWITCH_MEDIUM description);
          auto_value = (case get_DIMMABLE description of
                      None \<Rightarrow> None | Some b \<Rightarrow> get_SWITCH_AUTO description);
          has_effect = (dimmable \<and> truthy auto_value)
      in case device_id of
           None \<Rightarrow> Inl PlatformNotReady
         | Some i \<Rightarrow>
             Inr \<lparr> self_on = get_SWITCH_ON description,
                   self_off = get_SWITCH_OFF description,
                   self_medium = medium,
                   self_auto = auto_value,
                   self_dimmable = dimmable,
                   self_attr_effect_list = (if has_effect then Some [SWITCH_AUTO] else None),
                   self_attr_effect = (if has_effect then Some EFFECT_OFF else None),
                   self_kind = takeWhile (\<lambda>c. c \<noteq> CHR ''#'') light \<rparr>)"

subsection \<open>The properties\<close>

text \<open>\<^verbatim>\<open>is_on\<close>: \<^verbatim>\<open>int(None)\<close> raises \<^verbatim>\<open>TypeError\<close>, first for the status.\<close>

definition is_on :: "PhilipsLight \<Rightarrow> device_status \<Rightarrow> py_error + bool" where
  "is_on l status =
     (case status (self_kind l) of
        None \<Rightarrow> Inl TypeError
      | Some s \<Rightarrow>
          (case self_off l of
             None \<Rightarrow> Inl TypeError
           | Some off_value \<Rightarrow> Inr (s \<noteq> off_value)))"

text \<open>
  \<^verbatim>\<open>brightness\<close>. The second component is the entity after the read: the second
  test assigns \<^verbatim>\<open>self._attr_effect\<close>. \<^verbatim>\<open>int(self._auto)\<close> and
  \<^verbatim>\<open>int(self._medium)\<close> are evaluated only behind the truth test of the same
  attribute, so they cannot raise.
\<close>

definition brightness ::
  "PhilipsLight \<Rightarrow> device_status \<Rightarrow> (py_error + int option) \<times> PhilipsLight" where
  "brightness l status =
     (if self_dimmable l then
        if truthy (self_auto l) \<and> self_attr_effect l = Some SWITCH_AUTO then (Inr None, l)
        else
          (case status (self_kind l) of
             None \<Rightarrow> (Inl TypeError, l)
           | Some b \<Rightarrow>
               if truthy (self_auto l) \<and> truthy (self_medium l) \<and> Some b = self_auto l
               then (Inr None, l\<lparr>self_attr_effect := Some SWITCH_AUTO\<rparr>)
               else if truthy (self_medium l) \<and> Some b = self_medium l
               then (Inr (Some 128), l)
               else
                 (case self_on l of
                    None \<Rightarrow> (Inl TypeError, l)
                  | Some on_value \<Rightarrow>
                      (case py_round_div (255 * b) on_value of
                         Inl e \<Rightarrow> (Inl e, l)
                       | Inr v \<Rightarrow> (Inr (Some v), l))))
      else (Inr None, l))"

subsection \<open>The commands\<close>

text \<open>
  \<^verbatim>\<open>async_turn_on\<close>. With an effect in \<^verbatim>\<open>kwargs\<close> the effect is stored first;
  \<^verbatim>\<open>value\<close> is assigned only when the effect is \<^verbatim>\<open>SWITCH_AUTO\<close>, so the final
  call reads an unassigned local for any other effect. The \<^verbatim>\<open>elif\<close> and
  \<^verbatim>\<open>else\<close> belong to the outer test: they run only without an effect.
\<close>

definition async_turn_on ::
  "PhilipsLight \<Rightarrow> kwargs \<Rightarrow> (py_error + control_write) \<times> PhilipsLight" where
  "async_turn_on l kw =
     (case ATTR_EFFECT kw of
        Some e \<Rightarrow>
          (let l' = l\<lparr>self_attr_effect := Some e\<rparr>
           in if e = SWITCH_AUTO then (Inr (self_kind l', self_auto l'), l')
              else (Inl UnboundLocalError, l'))
      | None \<Rightarrow>
          if self_dimmable l then
            (case ATTR_BRIGHTNESS kw of
               Some b \<Rightarrow>
                 if truthy (self_medium l) \<and> b < 255
                 then (Inr (self_kind l, self_medium l), l)
                 else
                   (case self_on l of
                      None \<Rightarrow> (Inl TypeError, l)
                    | Some on_value \<Rightarrow>
                        (case py_round_div (on_value * b) 255 of
                           Inl e \<Rightarrow> (Inl e, l)
                         | Inr v \<Rightarrow> (Inr (self_kind l, Some v), l)))
             | None \<Rightarrow>
                 (case self_on l of
                    None \<Rightarrow> (Inl TypeError, l)
                  | Some on_value \<Rightarrow> (Inr (self_kind l, Some on_value), l)))
          else (Inr (self_kind l, self_on l), l))"

text \<open>\<^verbatim>\<open>async_turn_off\<close>.\<close>

definition async_turn_off :: "PhilipsLight \<Rightarrow> control_write \<times> PhilipsLight" where
  "async_turn_off l =
     (let l' = l\<lparr>self_attr_effect := Some EFFECT_OFF\<rparr>
      in ((self_kind l', self_off l'), l'))"

subsection \<open>Sequences of calls\<close>

text \<open>
  The calls the platform makes on one entity, in order. A call that raises leaves the
  entity as the call left it, and the next call goes on from there.
\<close>

datatype operation =
    Read_is_on device_status
  | Read_brightness device_status
  | Turn_on kwargs
  | Turn_off

fun step :: "PhilipsLight \<Rightarrow> operation \<Rightarrow> PhilipsLight" where
  "step l (Read_is_on status) = l"
| "step l (Read_brightness status) = snd (brightness l status)"
| "step l (Turn_on kw) = snd (async_turn_on l kw)"
| "step l Turn_off = snd (async_turn_off l)"

fun run :: "PhilipsLight \<Rightarrow> operation list \<Rightarrow> PhilipsLight" where
  "run l [] = l"
| "run l (x # xs) = run (step l x) xs"

text \<open>The effects that the turn-on commands of a sequence carry.\<close>

fun effects_of :: "operation list \<Rightarrow> string set" where
  "effects_of [] = {}"
| "effects_of (Turn_on kw # xs) =
     (case ATTR_EFFECT kw of None \<Rightarrow> effects_of xs | Some e \<Rightarrow> insert e (effects_of xs))"
| "effects_of (x # xs) = effects_of xs"

subsection \<open>Entities used as examples\<close>

text \<open>
  A dimmable light with a medium and an auto value, \<^verbatim>\<open>{on: 2, off: 0, medium: 1,
  auto: 3, dimmable: True}\<close>, and the entity the constructor builds from it for the
  light key \<^verbatim>\<open>"D0312C#1"\<close>.
\<close>

definition scenario_description :: light_description where
  "scenario_description =
     \<lparr> get_SWITCH_ON = Some 2, get_SWITCH_OFF = Some 0, get_SWITCH_MEDIUM = Some 1,
       get_SWITCH_AUTO = Some 3, get_DIMMABLE = Some True \<rparr>"

definition scenario_light :: PhilipsLight where
  "scenario_light =
     \<lparr> self_on = Some 2, self_off = Some 0, self_medium = Some 1, self_auto = Some 3,
       self_dimmable = True, self_attr_effect_list = Some [''auto''],
       self_attr_effect = Some ''off'', self_kind = ''D0312C'' \<rparr>"

text \<open>The same values with \<^verbatim>\<open>dimmable: False\<close> written out, and with no such key.\<close>

definition onoff_description :: light_description where
  "onoff_description =
     \<lparr> get_SWITCH_ON = Some 2, get_SWITCH_OFF = Some 0, get_SWITCH_MEDIUM = Some 1,
       get_SWITCH_AUTO = Some 3, get_DIMMABLE = Some False \<rparr>"

definition onoff_light :: PhilipsLight where
  "onoff_light =
     \<lparr> self_on = Some 2, self_off = Some 0, self_medium = Some 1, self_auto = Some 3,
       self_dimmable = False, self_attr_effect_list = None,
       self_attr_effect = None, self_kind = ''D0312C'' \<rparr>"

definition bare_description :: light_description where
  "bare_description =
     \<lparr> get_SWITCH_ON = Some 2, get_SWITCH_OFF = Some 0, get_SWITCH_MEDIUM = Some 1,
       get_SWITCH_AUTO = Some 3, get_DIMMABLE = None \<rparr>"

definition bare_light :: PhilipsLight where
  "bare_light =
     \<lparr> self_on = Some 2, self_off = Some 0, self_medium = None, self_auto = None,
       self_dimmable = False, self_attr_effect_list = None,
       self_attr_effect = None, self_kind = ''D0312C'' \<rparr>"

text \<open>
  A dimmable light whose auto value is \<^verbatim>\<open>0\<close>:
  \<^verbatim>\<open>{on: 100, off: 1, medium: 50, auto: 0, dimmable: True}\<close>.
\<close>

definition zero_auto_description :: light_description where
  "zero_auto_description =
     \<lparr> get_SWITCH_ON = Some 100, get_SWITCH_OFF = Some 1, get_SWITCH_MEDIUM = Some 50,
       get_SWITCH_AUTO = Some 0, get_DIMMABLE = Some True \<rparr>"

definition zero_auto_light :: PhilipsLight where
  "zero_auto_light =
     \<lparr> self_on = Some 100, self_off = Some 1, self_medium = Some 50, self_auto = Some 0,
       self_dimmable = True, self_attr_effect_list = None,
       self_attr_effect = None, self_kind = ''D0312C'' \<rparr>"

text \<open>
  Dimmable lights with neither a medium nor an auto value, with the device range
  \<open>0..on_value\<close>.
\<close>

definition dimmer_description :: "int \<Rightarrow> light_description" where
  "dimmer_description on_value =
     \<lparr> get_SWITCH_ON = Some on_value, get_SWITCH_OFF = Some 0, get_SWITCH_MEDIUM = None,
       get_SWITCH_AUTO = None, get_DIMMABLE = Some True \<rparr>"

definition dimmer_light :: "int \<Rightarrow> PhilipsLight" where
  "dimmer_light on_value =
     \<lparr> self_on = Some on_value, self_off = Some 0, self_medium = None, self_auto = None,
       self_dimmable = True, self_attr_effect_list = None,
       self_attr_effect = None, self_kind = ''D0312C'' \<rparr>"

text \<open>Keyword arguments of a turn-on command.\<close>

definition with_effect :: "string \<Rightarrow> kwargs" where
  "with_effect e = \<lparr> ATTR_EFFECT = Some e, ATTR_BRIGHTNESS = None \<rparr>"

definition with_brightness :: "int \<Rightarrow> kwargs" where
  "with_brightness b = \<lparr> ATTR_EFFECT = None, ATTR_BRIGHTNESS = Some b \<rparr>"

text \<open>A snapshot in which the control \<open>k\<close> has the raw value \<open>v\<close>.\<close>

definition raw_status :: "string \<Rightarrow> int \<Rightarrow> device_status" where
  "raw_status k v = Map.empty(k \<mapsto> v)"

section \<open>Properties\<close>

subsection \<open>Auxiliary facts\<close>

lemmas example_defs = scenario_description_def scenario_light_def onoff_description_def
  onoff_light_def bare_description_def bare_light_def zero_auto_description_def
  zero_auto_light_def dimmer_description_def dimmer_light_def with_effect_def
  with_brightness_def raw_status_def SWITCH_AUTO_def EFFECT_OFF_def

text \<open>The example entities are what the constructor builds from their descriptions.\<close>

lemma init_onoff:
  "PhilipsLight_init (Some ''a1b2'') onoff_description ''D0312C#1'' = Inr onoff_light"
  by (simp add: PhilipsLight_init_def truthy_def example_defs)

lemma init_bare:
  "PhilipsLight_init (Some ''a1b2'') bare_description ''D0312C#1'' = Inr bare_light"
  by (simp add: PhilipsLight_init_def truthy_def example_defs)

text \<open>What the constructor stores.\<close>

lemma init_fields:
  assumes "PhilipsLight_init device_id description light = Inr l"
  shows "self_dimmable l = (get_DIMMABLE description = Some True)"
    and "self_on l = get_SWITCH_ON description"
    and "self_off l = get_SWITCH_OFF description"
    and "get_DIMMABLE description = None \<Longrightarrow> self_medium l = None \<and> self_auto l = None"
    and "get_DIMMABLE description \<noteq> None \<Longrightarrow>
           self_medium l = get_SWITCH_MEDIUM description \<and>
           self_auto l = get_SWITCH_AUTO description"
  using assms
  by (auto simp: PhilipsLight_init_def Let_def split: option.splits)

lemma brightness_not_dimmable:
  "\<not> self_dimmable l \<Longrightarrow> brightness l status = (Inr None, l)"
  by (simp add: brightness_def)

text \<open>No call assigns an attribute other than the cached effect.\<close>

lemma step_keeps_configuration:
  "step l x = l\<lparr>self_attr_effect := self_attr_effect (step l x)\<rparr>"
  by (cases x)
    (auto simp: brightness_def async_turn_on_def async_turn_off_def Let_def
      split: option.splits sum.splits)

lemma run_keeps_configuration:
  "run l ops = l\<lparr>self_attr_effect := self_attr_effect (run l ops)\<rparr>"
proof (induction ops arbitrary: l)
  case Nil
  show ?case by simp
next
  case (Cons x xs)
  have "run (step l x) xs =
      (step l x)\<lparr>self_attr_effect := self_attr_effect (run (step l x) xs)\<rparr>"
    by (rule Cons.IH)
  also have "\<dots> = l\<lparr>self_attr_effect := self_attr_effect (run (step l x) xs)\<rparr>"
    by (subst step_keeps_configuration) simp
  finally show ?case by simp
qed

text \<open>Where the cached effect of the next state can come from.\<close>

lemma step_effect:
  "self_attr_effect (step l x) \<in>
     {self_attr_effect l, Some EFFECT_OFF, Some SWITCH_AUTO} \<union> Some ` effects_of [x]"
  by (cases x)
    (auto simp: brightness_def async_turn_on_def async_turn_off_def Let_def
      split: option.splits sum.splits)

lemma effects_of_Cons: "effects_of (x # xs) = effects_of [x] \<union> effects_of xs"
  by (cases x) (auto split: option.splits)

lemma run_effect:
  "self_attr_effect (run l ops) \<in>
     {self_attr_effect l, Some EFFECT_OFF, Some SWITCH_AUTO} \<union> Some ` effects_of ops"
proof (induction ops arbitrary: l)
  case Nil
  show ?case by simp
next
  case (Cons x xs)
  have later: "self_attr_effect (run (step l x) xs) \<in>
      {self_attr_effect (step l x), Some EFFECT_OFF, Some SWITCH_AUTO} \<union> Some ` effects_of xs"
    by (rule Cons.IH)
  have first: "self_attr_effect (step l x) \<in>
      {self_attr_effect l, Some EFFECT_OFF, Some SWITCH_AUTO} \<union> Some ` effects_of [x]"
    by (rule step_effect)
  have "effects_of (x # xs) = effects_of [x] \<union> effects_of xs"
    by (rule effects_of_Cons)
  with later first show ?case by auto
qed

subsection \<open>Rounding and the division in doubles\<close>


lemma round_half_even_neg:
  "d \<noteq> 0 \<Longrightarrow> round_half_even a (- d) = round_half_even (- a) d"
  by (cases "0 < d") (auto simp: round_half_even_def Let_def)


text \<open>
  The rounded quotient is the one integer within half a step of the quotient whose ties
  are even.
\<close>

lemma round_half_even_nearest:
  fixes n d :: int
  assumes "0 < d"
  shows "(2 * round_half_even n d - 1) * d \<le> 2 * n"
    and "2 * n \<le> (2 * round_half_even n d + 1) * d"
    and "2 * n = (2 * round_half_even n d + 1) * d \<Longrightarrow> even (round_half_even n d)"
    and "2 * n = (2 * round_half_even n d - 1) * d \<Longrightarrow> even (round_half_even n d)"
proof -
  define q where "q = n div d"
  define r where "r = n mod d"
  have n: "n = q * d + r"
    by (simp add: q_def r_def)
  have r: "0 \<le> r" "r < d"
    using assms by (simp_all add: r_def)
  have "2 * r < d \<and> round_half_even n d = q
      \<or> d < 2 * r \<and> round_half_even n d = q + 1
      \<or> 2 * r = d \<and> even q \<and> round_half_even n d = q
      \<or> 2 * r = d \<and> odd q \<and> round_half_even n d = q + 1"
    using assms by (auto simp: round_half_even_def Let_def q_def r_def)
  then have "(2 * round_half_even n d - 1) * d \<le> 2 * n
      \<and> 2 * n \<le> (2 * round_half_even n d + 1) * d
      \<and> (2 * n = (2 * round_half_even n d + 1) * d \<longrightarrow> even (round_half_even n d))
      \<and> (2 * n = (2 * round_half_even n d - 1) * d \<longrightarrow> even (round_half_even n d))"
    using r assms by (auto simp: n algebra_simps)
  then show "(2 * round_half_even n d - 1) * d \<le> 2 * n"
    and "2 * n \<le> (2 * round_half_even n d + 1) * d"
    and "2 * n = (2 * round_half_even n d + 1) * d \<Longrightarrow> even (round_half_even n d)"
    and "2 * n = (2 * round_half_even n d - 1) * d \<Longrightarrow> even (round_half_even n d)"
    by blast+
qed

lemma nearest_unique:
  fixes n d k k' :: int
  assumes d: "0 < d"
    and k: "(2 * k - 1) * d \<le> 2 * n" "2 * n \<le> (2 * k + 1) * d"
      "2 * n = (2 * k + 1) * d \<Longrightarrow> even k" "2 * n = (2 * k - 1) * d \<Longrightarrow> even k"
    and k': "(2 * k' - 1) * d \<le> 2 * n" "2 * n \<le> (2 * k' + 1) * d"
      "2 * n = (2 * k' + 1) * d \<Longrightarrow> even k'" "2 * n = (2 * k' - 1) * d \<Longrightarrow> even k'"
  shows "k = k'"
proof -
  have step: "False" if lt: "x < y"
    and x: "2 * n \<le> (2 * x + 1) * d" "2 * n = (2 * x + 1) * d \<Longrightarrow> even x"
    and y: "(2 * y - 1) * d \<le> 2 * n" "2 * n = (2 * y - 1) * d \<Longrightarrow> even y"
    for x y :: int
  proof -
    have "(2 * y - 1) * d \<le> (2 * x + 1) * d"
      using x(1) y(1) by simp
    then have "2 * y - 1 \<le> 2 * x + 1"
      using d by (simp add: mult_le_cancel_right)
    with lt have yx: "y = x + 1" by simp
    then have "(2 * y - 1) * d = (2 * x + 1) * d" by simp
    with x(1) y(1) have "2 * n = (2 * x + 1) * d" "2 * n = (2 * y - 1) * d"
      by simp_all
    then have "even x" "even y"
      using x(2) y(2) by blast+
    with yx show False by simp
  qed
  show ?thesis
  proof (rule ccontr)
    assume "k \<noteq> k'"
    then consider "k < k'" | "k' < k" by linarith
    then show False
    proof cases
      case 1
      then show False using step [of k k'] k k' by blast
    next
      case 2
      then show False using step [of k' k] k k' by blast
    qed
  qed
qed

lemma round_half_even_eqI:
  fixes n d k :: int
  assumes "0 < d"
    and "(2 * k - 1) * d \<le> 2 * n" and "2 * n \<le> (2 * k + 1) * d"
    and "2 * n = (2 * k + 1) * d \<Longrightarrow> even k" and "2 * n = (2 * k - 1) * d \<Longrightarrow> even k"
  shows "round_half_even n d = k"
  by (rule nearest_unique [OF assms(1) round_half_even_nearest [OF assms(1)] assms(2-5)])

lemma round_half_even_multiple:
  fixes x d :: int
  assumes "0 < d"
  shows "round_half_even (x * d) d = x"
  using assms by (intro round_half_even_eqI) (auto simp: algebra_simps)

lemma round_half_even_minus:
  fixes n d :: int
  assumes "0 < d"
  shows "round_half_even (- n) d = - round_half_even n d"
proof (rule round_half_even_eqI [OF assms])
  note f = round_half_even_nearest [OF assms, of n]
  show "(2 * - round_half_even n d - 1) * d \<le> 2 * - n"
    using f(2) by (simp add: algebra_simps)
  show "2 * - n \<le> (2 * - round_half_even n d + 1) * d"
    using f(1) by (simp add: algebra_simps)
  show "even (- round_half_even n d)" if "2 * - n = (2 * - round_half_even n d + 1) * d"
  proof -
    from that have "2 * n = (2 * round_half_even n d - 1) * d"
      by (simp add: algebra_simps)
    then show ?thesis using f(4) by simp
  qed
  show "even (- round_half_even n d)" if "2 * - n = (2 * - round_half_even n d - 1) * d"
  proof -
    from that have "2 * n = (2 * round_half_even n d + 1) * d"
      by (simp add: algebra_simps)
    then show ?thesis using f(3) by simp
  qed
qed

lemma round_half_even_abs:
  fixes a b :: int
  assumes "b \<noteq> 0"
  shows "sgn a * sgn b * round_half_even \<bar>a\<bar> \<bar>b\<bar> = round_half_even a b"
proof -
  have pos: "sgn a * round_half_even \<bar>a\<bar> d = round_half_even a d" if "0 < d" for d
  proof (cases "0 \<le> a")
    case True
    then show ?thesis
      using that by (cases "a = 0") (simp_all add: round_half_even_multiple [of d 0, simplified])
  next
    case False
    then show ?thesis
      using round_half_even_minus [OF that, of "- a"] by simp
  qed
  show ?thesis
  proof (cases "0 < b")
    case True
    then show ?thesis using pos [of b] by simp
  next
    case False
    with assms have nb: "0 < - b" by simp
    have "round_half_even a b = round_half_even (- a) (- b)"
      using assms round_half_even_neg [of "- b" a] by simp
    also have "\<dots> = - round_half_even a (- b)"
      using round_half_even_minus [OF nb, of a] .
    also have "\<dots> = - (sgn a * round_half_even \<bar>a\<bar> (- b))"
      using pos [OF nb] by simp
    finally show ?thesis using nb by simp
  qed
qed

text \<open>
  Rounding to a multiple of \<open>1 / T\<close> first does not change the nearest integer when the
  divisor is below \<open>T\<close>: the quotient is then a tie or further than \<open>1 / (2 * T)\<close> from
  every tie.
\<close>

lemma double_rounding:
  fixes n d T2 :: int
  assumes d: "0 < d" and T2: "0 < T2" and small: "d < 2 * T2"
  shows "round_half_even (round_half_even (n * (2 * T2)) d) (2 * T2) = round_half_even n d"
proof -
  define k where "k = round_half_even n d"
  define m where "m = round_half_even (n * (2 * T2)) d"
  note kn = round_half_even_nearest [OF d, of n, folded k_def]
  note mn = round_half_even_nearest [OF d, of "n * (2 * T2)", folded m_def]
  have T: "0 < 2 * T2" using T2 by simp
  have upper: "2 * m < (2 * k + 1) * (2 * T2)" if strict: "2 * n < (2 * k + 1) * d"
  proof (rule ccontr)
    assume "\<not> 2 * m < (2 * k + 1) * (2 * T2)"
    then have "(2 * k + 1) * (2 * T2) - 1 \<le> 2 * m - 1" by simp
    then have "((2 * k + 1) * (2 * T2) - 1) * d \<le> (2 * m - 1) * d"
      using d by (simp only: mult_le_cancel_right) simp
    also have "\<dots> \<le> 2 * (n * (2 * T2))" by (rule mn(1))
    also have "\<dots> = (2 * n) * (2 * T2)" by simp
    also have "\<dots> \<le> ((2 * k + 1) * d - 1) * (2 * T2)"
      using strict T by (simp only: mult_le_cancel_right) simp
    finally have "2 * T2 \<le> d" by (simp add: algebra_simps)
    with small show False by simp
  qed
  have lower: "(2 * k - 1) * (2 * T2) < 2 * m" if strict: "(2 * k - 1) * d < 2 * n"
  proof (rule ccontr)
    assume "\<not> (2 * k - 1) * (2 * T2) < 2 * m"
    then have le: "2 * m + 1 \<le> (2 * k - 1) * (2 * T2) + 1" by simp
    have "((2 * k - 1) * d + 1) * (2 * T2) \<le> (2 * n) * (2 * T2)"
      using strict T by (simp only: mult_le_cancel_right) simp
    also have "\<dots> = 2 * (n * (2 * T2))" by simp
    also have "\<dots> \<le> (2 * m + 1) * d" by (rule mn(2))
    also have "\<dots> \<le> ((2 * k - 1) * (2 * T2) + 1) * d"
      using le d by (simp only: mult_le_cancel_right) simp
    finally have "2 * T2 \<le> d" by (simp add: algebra_simps)
    with small show False by simp
  qed
  have tie_up: "m = (2 * k + 1) * T2" if "2 * n = (2 * k + 1) * d"
  proof -
    have "n * (2 * T2) = (2 * n) * T2" by simp
    also have "\<dots> = ((2 * k + 1) * T2) * d"
      unfolding that by (simp add: algebra_simps)
    finally have "m = round_half_even (((2 * k + 1) * T2) * d) d"
      unfolding m_def by (rule arg_cong)
    then show ?thesis
      unfolding round_half_even_multiple [OF d] .
  qed
  have tie_down: "m = (2 * k - 1) * T2" if "2 * n = (2 * k - 1) * d"
  proof -
    have "n * (2 * T2) = (2 * n) * T2" by simp
    also have "\<dots> = ((2 * k - 1) * T2) * d"
      unfolding that by (simp add: algebra_simps)
    finally have "m = round_half_even (((2 * k - 1) * T2) * d) d"
      unfolding m_def by (rule arg_cong)
    then show ?thesis
      unfolding round_half_even_multiple [OF d] .
  qed
  have "round_half_even m (2 * T2) = k"
  proof (rule round_half_even_eqI [OF T])
    show "(2 * k - 1) * (2 * T2) \<le> 2 * m"
    proof (cases "2 * n = (2 * k - 1) * d")
      case True
      then show ?thesis using tie_down by (simp add: algebra_simps)
    next
      case False
      with kn(1) have "(2 * k - 1) * d < 2 * n" by simp
      then show ?thesis using lower by simp
    qed
    show "2 * m \<le> (2 * k + 1) * (2 * T2)"
    proof (cases "2 * n = (2 * k + 1) * d")
      case True
      then show ?thesis using tie_up by (simp add: algebra_simps)
    next
      case False
      with kn(2) have "2 * n < (2 * k + 1) * d" by simp
      then show ?thesis using upper by simp
    qed
    show "even k" if eq: "2 * m = (2 * k + 1) * (2 * T2)"
    proof (cases "2 * n = (2 * k + 1) * d")
      case True
      then show ?thesis by (rule kn(3))
    next
      case False
      with kn(2) have "2 * n < (2 * k + 1) * d" by simp
      then show ?thesis using upper eq by simp
    qed
    show "even k" if eq: "2 * m = (2 * k - 1) * (2 * T2)"
    proof (cases "2 * n = (2 * k - 1) * d")
      case True
      then show ?thesis by (rule kn(4))
    next
      case False
      with kn(1) have "(2 * k - 1) * d < 2 * n" by simp
      then show ?thesis using lower eq by simp
    qed
  qed
  then show ?thesis by (simp add: m_def k_def)
qed

text \<open>A quotient below one: the rounded mantissa does not exceed the dividend.\<close>

lemma round_half_even_zero:
  fixes n d :: int
  assumes "0 \<le> n" and "2 * n < d"
  shows "round_half_even n d = 0"
  using assms by (intro round_half_even_eqI) auto

lemma round_half_even_le:
  fixes n c d :: int
  assumes d: "0 < d" and n: "0 \<le> n" and c: "0 \<le> c" and le: "n \<le> c * d"
  shows "round_half_even n d \<le> c" and "0 \<le> round_half_even n d"
proof -
  note f = round_half_even_nearest [OF d, of n]
  show "round_half_even n d \<le> c"
  proof (rule ccontr)
    assume "\<not> round_half_even n d \<le> c"
    then have "2 * c + 1 \<le> 2 * round_half_even n d - 1" by simp
    then have "(2 * c + 1) * d \<le> (2 * round_half_even n d - 1) * d"
      using d by (simp only: mult_le_cancel_right) simp
    with f(1) have "(2 * c + 1) * d \<le> 2 * n" by simp
    with le d show False by (simp add: algebra_simps)
  qed
  show "0 \<le> round_half_even n d"
  proof (rule ccontr)
    assume "\<not> 0 \<le> round_half_even n d"
    then have "2 * round_half_even n d + 1 \<le> - 1" by simp
    then have "(2 * round_half_even n d + 1) * d \<le> (- 1) * d"
      using d by (simp only: mult_le_cancel_right) simp
    with f(2) n d show False by simp
  qed
qed

text \<open>The exponent that \<open>floor_log2\<close> computes brackets the quotient.\<close>

lemma bitlen_nat:
  assumes "0 < x"
  obtains p :: nat where "bitlen x = int (Suc p)" and "2 ^ p \<le> x" and "x < 2 ^ Suc p"
proof -
  have pos: "0 < bitlen x"
    using assms bitlen_eq_zero_iff [of x] bitlen_nonneg [of x] by linarith
  define p where "p = nat (bitlen x - 1)"
  have b: "bitlen x = int (Suc p)"
    using pos by (simp add: p_def)
  have sp: "nat (bitlen x) = Suc p"
    using pos by (simp add: p_def)
  have "2 ^ nat (bitlen x - 1) \<le> x \<and> x < 2 ^ nat (bitlen x)"
    using assms by (rule bitlen_bounds)
  then have "2 ^ p \<le> x" "x < 2 ^ Suc p"
    unfolding sp p_def [symmetric] by blast+
  with b show thesis by (rule that)
qed

lemma floor_log2_lower:
  fixes n d :: int
  assumes n: "0 < n" and d: "0 < d"
  shows "d * 2 ^ nat (floor_log2 n d) \<le> n * 2 ^ nat (- floor_log2 n d)"
proof -
  obtain p where p: "bitlen n = int (Suc p)" "2 ^ p \<le> n" "n < 2 ^ Suc p"
    using n by (rule bitlen_nat)
  obtain q where q: "bitlen d = int (Suc q)" "2 ^ q \<le> d" "d < 2 ^ Suc q"
    using d by (rule bitlen_nat)
  define e where "e = int p - int q"
  have e: "bitlen n - bitlen d = e"
    by (simp add: p q e_def)
  show ?thesis
  proof (cases "d * 2 ^ nat e \<le> n * 2 ^ nat (- e)")
    case True
    then show ?thesis by (simp add: floor_log2_def e Let_def)
  next
    case False
    then have E: "floor_log2 n d = e - 1"
      by (simp add: floor_log2_def e Let_def)
    show ?thesis
    proof (cases "q < p")
      case True
      then obtain j where j: "p = Suc (q + j)"
        by (metis less_iff_Suc_add add_Suc_right)
      have "d * 2 ^ j \<le> (2 ^ Suc q - 1) * 2 ^ j"
        using q(3) by (simp only: mult_le_cancel_right) simp
      also have "\<dots> \<le> 2 ^ Suc q * 2 ^ j"
        by (simp add: algebra_simps)
      also have "\<dots> = 2 ^ p"
        by (simp add: j power_add)
      also have "\<dots> \<le> n" by (rule p(2))
      finally show ?thesis
        by (simp add: E e_def j)
    next
      case False
      then obtain j where j: "q = p + j"
        by (metis le_iff_add not_less)
      have "d \<le> 2 ^ Suc q"
        using q(3) by simp
      also have "\<dots> = 2 ^ p * 2 ^ Suc j"
        by (simp add: j power_add)
      also have "\<dots> \<le> n * 2 ^ Suc j"
        using p(2) by (simp only: mult_le_cancel_right) simp
      finally show ?thesis
        by (simp add: E e_def j nat_add_distrib)
    qed
  qed
qed

lemma floor_log2_upper:
  fixes n d :: int
  assumes n: "0 < n" and d: "0 < d"
  shows "n * 2 ^ nat (- (floor_log2 n d + 1)) < d * 2 ^ nat (floor_log2 n d + 1)"
proof -
  obtain p where p: "bitlen n = int (Suc p)" "2 ^ p \<le> n" "n < 2 ^ Suc p"
    using n by (rule bitlen_nat)
  obtain q where q: "bitlen d = int (Suc q)" "2 ^ q \<le> d" "d < 2 ^ Suc q"
    using d by (rule bitlen_nat)
  define e where "e = int p - int q"
  have e: "bitlen n - bitlen d = e"
    by (simp add: p q e_def)
  show ?thesis
  proof (cases "d * 2 ^ nat e \<le> n * 2 ^ nat (- e)")
    case False
    then have E: "floor_log2 n d = e - 1"
      by (simp add: floor_log2_def e Let_def)
    from False show ?thesis by (simp add: E)
  next
    case True
    then have E: "floor_log2 n d = e"
      by (simp add: floor_log2_def e Let_def)
    show ?thesis
    proof (cases "q \<le> Suc p")
      case True
      then obtain j where j: "Suc p = q + j"
        by (metis le_iff_add)
      have "n < 2 ^ Suc p" by (rule p(3))
      also have "\<dots> = 2 ^ q * 2 ^ j"
        by (simp only: j power_add)
      also have "\<dots> \<le> d * 2 ^ j"
        using q(2) by (simp only: mult_le_cancel_right) simp
      finally have "n < d * 2 ^ j" .
      moreover have "nat (e + 1) = j" "nat (- (e + 1)) = 0"
        using j by (simp_all add: e_def) 
      ultimately show ?thesis
        by (simp add: E)
    next
      case False
      then obtain j where j: "q = Suc (Suc p) + j"
        by (metis le_iff_add not_less_eq_eq)
      have "n * 2 ^ Suc j \<le> (2 ^ Suc p - 1) * 2 ^ Suc j"
        using p(3) by (simp only: mult_le_cancel_right) simp
      also have "\<dots> < 2 ^ Suc p * 2 ^ Suc j"
        by (simp add: algebra_simps)
      also have "\<dots> = 2 ^ q"
        by (simp add: j power_add)
      also have "\<dots> \<le> d" by (rule q(2))
      finally have "n * 2 ^ Suc j < d" .
      moreover have "nat (e + 1) = 0" "nat (- (e + 1)) = Suc j"
        using j by (simp_all add: e_def)
      ultimately show ?thesis
        by (simp add: E)
    qed
  qed
qed

text \<open>
  For a dividend below \<open>2 ^ 52\<close> the division in doubles followed by \<^verbatim>\<open>round\<close> is
  the rounding of the exact quotient, and nothing overflows.
\<close>

lemma round_twice_small:
  fixes n d :: int and t :: nat
  assumes d: "0 < d" and n: "0 \<le> n" "n < 2 ^ 52" and t: "1 \<le> t"
    and fine: "d < 2 ^ t \<or> 54 \<le> t"
  shows "round_half_even (round_half_even (n * 2 ^ t) d) (2 ^ t) = round_half_even n d"
proof (cases "d < 2 ^ t")
  case True
  obtain j where j: "t = Suc j"
    using t by (cases t) simp_all
  have T: "(2::int) ^ t = 2 * 2 ^ j"
    by (simp add: j)
  show ?thesis
    unfolding T using True by (intro double_rounding d) (simp_all add: T)
next
  case False
  with fine have t54: "54 \<le> t" and big: "2 ^ t \<le> d"
    by simp_all
  have "(2::int) ^ 54 \<le> 2 ^ t"
    using t54 by (intro power_increasing) simp_all
  then have n2: "2 * n < 2 ^ t"
    using n(2) by simp
  with big have zero: "round_half_even n d = 0"
    using n(1) by (intro round_half_even_zero) simp_all
  have "n * 2 ^ t \<le> n * d"
    using big n(1) by (rule mult_left_mono)
  then have m: "round_half_even (n * 2 ^ t) d \<le> n" "0 \<le> round_half_even (n * 2 ^ t) d"
    using d n(1) by (intro round_half_even_le; simp)+
  have "round_half_even (round_half_even (n * 2 ^ t) d) (2 ^ t) = 0"
    using m n2 by (intro round_half_even_zero) simp_all
  with zero show ?thesis by simp
qed

lemma ulp_small:
  fixes n d :: int
  assumes n: "0 < n" "n < 2 ^ 52" and d: "0 < d"
  defines "s \<equiv> max (floor_log2 n d - 52) (- 1074)"
  shows "s < 0" and "n * 2 ^ nat (- s) \<le> 2 ^ 53 * d"
    and "d < 2 ^ nat (- s) \<or> 54 \<le> nat (- s)"
proof -
  define E where "E = floor_log2 n d"
  have lower: "d * 2 ^ nat E \<le> n * 2 ^ nat (- E)"
    unfolding E_def using n(1) d by (rule floor_log2_lower)
  have upper: "n * 2 ^ nat (- (E + 1)) < d * 2 ^ nat (E + 1)"
    unfolding E_def using n(1) d by (rule floor_log2_upper)
  have E51: "E \<le> 51"
  proof (rule ccontr)
    assume "\<not> E \<le> 51"
    then have "52 \<le> nat E" and nE: "nat (- E) = 0" by simp_all
    then have "(2::int) ^ 52 \<le> 2 ^ nat E"
      by (intro power_increasing) simp_all
    also have "\<dots> \<le> d * 2 ^ nat E"
      using d by simp
    also have "\<dots> \<le> n" using lower nE by simp
    finally show False using n(2) by simp
  qed
  have s: "s = max (E - 52) (- 1074)"
    by (simp add: s_def E_def)
  show "s < 0"
    using E51 by (simp add: s)
  show "n * 2 ^ nat (- s) \<le> 2 ^ 53 * d"
  proof (cases "- 1074 \<le> E - 52")
    case True
    then have t: "nat (- s) = nat (52 - E)"
      by (simp add: s max_absorb1)
    show ?thesis
    proof (cases "0 \<le> E + 1")
      case True
      then have z: "nat (- (E + 1)) = 0" and sum: "nat (E + 1) + nat (52 - E) = 53"
        using E51 by simp_all
      have "n * 2 ^ nat (52 - E) \<le> (d * 2 ^ nat (E + 1)) * 2 ^ nat (52 - E)"
        using upper z by (simp only: mult_le_cancel_right) simp
      also have "\<dots> = d * 2 ^ (nat (E + 1) + nat (52 - E))"
        by (simp add: power_add)
      finally show ?thesis by (simp add: t sum)
    next
      case False
      then have z: "nat (E + 1) = 0" and sum: "nat (52 - E) = nat (- (E + 1)) + 53"
        by simp_all
      have "n * 2 ^ nat (52 - E) = (n * 2 ^ nat (- (E + 1))) * 2 ^ 53"
        by (simp add: sum power_add)
      also have "\<dots> \<le> d * 2 ^ 53"
        using upper z by (simp only: mult_le_cancel_right) simp
      finally show ?thesis by (simp add: t)
    qed
  next
    case False
    then have t: "nat (- s) = 1074"
      by (simp add: s max_absorb2)
    from False have z: "nat (E + 1) = 0" by simp
    have "n * 2 ^ 1074 = (n * 2 ^ 1022) * 2 ^ 52"
      by simp
    also have "\<dots> \<le> (n * 2 ^ nat (- (E + 1))) * 2 ^ 52"
    proof -
      have "(2::int) ^ 1022 \<le> 2 ^ nat (- (E + 1))"
        using False by (intro power_increasing) simp_all
      then have "n * 2 ^ 1022 \<le> n * 2 ^ nat (- (E + 1))"
        using n(1) by (intro mult_left_mono) simp_all
      then show ?thesis
        by (intro mult_right_mono) simp_all
    qed
    also have "\<dots> \<le> d * 2 ^ 52"
      using upper z by (simp only: mult_le_cancel_right) simp
    also have "\<dots> \<le> 2 ^ 53 * d"
      using d by simp
    finally show ?thesis by (simp only: t)
  qed
  show "d < 2 ^ nat (- s) \<or> 54 \<le> nat (- s)"
  proof (cases "- 1074 \<le> E - 52")
    case False
    then show ?thesis by (simp add: s max_absorb2)
  next
    case True
    then have t: "nat (- s) = nat (52 - E)"
      by (simp add: s max_absorb1)
    have "d < 2 ^ nat (52 - E)"
    proof (cases "0 \<le> E")
      case True
      then have z: "nat (- E) = 0" and sum: "nat E + nat (52 - E) = 52"
        using E51 by simp_all
      have "d * 2 ^ nat E \<le> n" using lower z by simp
      also have "\<dots> < 2 ^ (nat E + nat (52 - E))"
        using n(2) by (simp only: sum)
      also have "\<dots> = 2 ^ nat (52 - E) * 2 ^ nat E"
        by (simp add: power_add)
      finally show ?thesis
        by (simp only: mult_less_cancel_right) simp
    next
      case False
      then have z: "nat E = 0" and sum: "nat (52 - E) = 52 + nat (- E)"
        by simp_all
      have "d \<le> n * 2 ^ nat (- E)" using lower z by simp
      also have "\<dots> < 2 ^ 52 * 2 ^ nat (- E)"
        using n(2) by (simp only: mult_less_cancel_right) simp
      also have "\<dots> = 2 ^ nat (52 - E)"
        by (simp only: sum power_add)
      finally show ?thesis .
    qed
    then show ?thesis by (simp add: t)
  qed
qed

lemma py_round_div_small:
  fixes a b :: int
  assumes b: "b \<noteq> 0" and a: "\<bar>a\<bar> < 2 ^ 52"
  shows "py_round_div a b = Inr (round_half_even a b)"
proof (cases "a = 0")
  case True
  then show ?thesis
    using b by (simp add: py_round_div_def Let_def round_half_even_def)
next
  case False
  define n where "n = \<bar>a\<bar>"
  define d where "d = \<bar>b\<bar>"
  define s where "s = max (floor_log2 n d - 52) (- 1074)"
  define m where "m = round_half_even (n * 2 ^ nat (- s)) d"
  have n: "0 < n" "n < 2 ^ 52" and d: "0 < d"
    using False a b by (simp_all add: n_def d_def)
  note u = ulp_small [OF n d, folded s_def]
  have ns: "nat s = 0" and t: "1 \<le> nat (- s)"
    using u(1) by simp_all
  have mb: "m \<le> 2 ^ 53"
    unfolding m_def using d n(1) u(2) by (intro round_half_even_le) simp_all
  have "(2::int) ^ 53 < 2 ^ 1024"
    by (intro power_strict_increasing) simp_all
  with mb have no_overflow: "\<not> 2 ^ 1024 \<le> m"
    by linarith
  have "round_half_even m (2 ^ nat (- s)) = round_half_even n d"
    unfolding m_def using d n t u(3) by (intro round_twice_small) simp_all
  then have "py_round_div a b = Inr (sgn a * sgn b * round_half_even n d)"
    using b no_overflow
    by (simp add: py_round_div_def Let_def ns n_def [symmetric] d_def [symmetric]
        s_def [symmetric] m_def [symmetric])
  then show ?thesis
    using round_half_even_abs [OF b, of a] by (simp add: n_def d_def)
qed




subsection \<open>The constructor and the medium and auto values\<close>

text \<open>
  Claim C1, as stated, fails: a description with \<^verbatim>\<open>dimmable: False\<close> written out
  keeps its medium and auto values in the entity, since the constructor clears them only
  where the key is absent, and a turn-on with the effect \<^verbatim>\<open>"auto"\<close> then writes the
  auto value 3.
\<close>

theorem explicit_false_keeps_auto_counterexample:
  "get_DIMMABLE onoff_description = Some False
   \<and> PhilipsLight_init (Some ''a1b2'') onoff_description ''D0312C#1'' = Inr onoff_light
   \<and> self_medium onoff_light = Some 1
   \<and> self_auto onoff_light = Some 3
   \<and> fst (async_turn_on onoff_light (with_effect ''auto'')) = Inr (''D0312C'', Some 3)"
  by (simp add: PhilipsLight_init_def async_turn_on_def truthy_def example_defs)

text \<open>
  Claim C1, amended: for every description with no \<^verbatim>\<open>dimmable\<close> key the constructed
  entity is not dimmable and has neither a medium nor an auto value, and stays so after
  any sequence of calls; so every later read of the brightness returns \<^verbatim>\<open>None\<close> and
  leaves the entity as it is, a turn-on without effect writes the on value, a turn-on
  with the effect \<^verbatim>\<open>"auto"\<close> writes \<^verbatim>\<open>None\<close>, and a turn-off writes the off
  value: no configured medium or auto value is ever used.
\<close>

theorem init_clears_medium_and_auto:
  assumes init: "PhilipsLight_init device_id description light = Inr l"
    and absent: "get_DIMMABLE description = None"
  shows "self_medium (run l ops) = None \<and> self_auto (run l ops) = None
     \<and> \<not> self_dimmable (run l ops)
     \<and> brightness (run l ops) status = (Inr None, run l ops)
     \<and> fst (async_turn_on (run l ops) kw) =
         (case ATTR_EFFECT kw of
            None \<Rightarrow> Inr (self_kind l, get_SWITCH_ON description)
          | Some e \<Rightarrow> if e = SWITCH_AUTO then Inr (self_kind l, None)
                      else Inl UnboundLocalError)
     \<and> fst (async_turn_off (run l ops)) = (self_kind l, get_SWITCH_OFF description)"
proof -
  define l' where "l' = run l ops"
  have same: "l' = l\<lparr>self_attr_effect := self_attr_effect l'\<rparr>"
    unfolding l'_def by (rule run_keeps_configuration)
  have fields: "self_medium l = None" "self_auto l = None" "\<not> self_dimmable l"
    "self_on l = get_SWITCH_ON description" "self_off l = get_SWITCH_OFF description"
    using init_fields [OF init] absent by simp_all
  have f': "self_medium l' = None" "self_auto l' = None" "\<not> self_dimmable l'"
    "self_on l' = get_SWITCH_ON description" "self_off l' = get_SWITCH_OFF description"
    "self_kind l' = self_kind l"
    by (subst same, simp add: fields)+
  have "brightness l' status = (Inr None, l')"
    using f' by (simp add: brightness_not_dimmable)
  moreover have "fst (async_turn_on l' kw) =
         (case ATTR_EFFECT kw of
            None \<Rightarrow> Inr (self_kind l, get_SWITCH_ON description)
          | Some e \<Rightarrow> if e = SWITCH_AUTO then Inr (self_kind l, None)
                      else Inl UnboundLocalError)"
    using f' by (simp add: async_turn_on_def Let_def split: option.splits)
  moreover have "fst (async_turn_off l') = (self_kind l, get_SWITCH_OFF description)"
    using f' by (simp add: async_turn_off_def Let_def)
  ultimately show ?thesis
    using f' unfolding l'_def by simp
qed

theorem init_clears_medium_and_auto_witness:
  "PhilipsLight_init (Some ''a1b2'') bare_description ''D0312C#1'' = Inr bare_light
   \<and> get_DIMMABLE bare_description = None
   \<and> get_SWITCH_AUTO bare_description = Some 3
   \<and> self_auto (run bare_light [Turn_on (with_effect ''auto'')]) = None
   \<and> brightness (run bare_light [Turn_on (with_effect ''auto'')]) (raw_status ''D0312C'' 3)
       = (Inr None, run bare_light [Turn_on (with_effect ''auto'')])
   \<and> fst (async_turn_on (run bare_light [Turn_on (with_effect ''auto'')]) (with_effect ''auto''))
       = Inr (''D0312C'', None)"
proof -
  have absent: "get_DIMMABLE bare_description = None"
    by (simp add: bare_description_def)
  have k: "self_kind bare_light = ''D0312C''" "get_SWITCH_AUTO bare_description = Some 3"
    "ATTR_EFFECT (with_effect ''auto'') = Some ''auto''"
    by (simp_all add: example_defs)
  note fact = init_clears_medium_and_auto [OF init_bare absent,
      of "[Turn_on (with_effect ''auto'')]" "raw_status ''D0312C'' 3" "with_effect ''auto''"]
  from fact have "self_auto (run bare_light [Turn_on (with_effect ''auto'')]) = None"
    by (rule conjunct1 [OF conjunct2])
  moreover from fact have "brightness (run bare_light [Turn_on (with_effect ''auto'')])
       (raw_status ''D0312C'' 3) = (Inr None, run bare_light [Turn_on (with_effect ''auto'')])"
    by (elim conjE)
  moreover from fact have "fst (async_turn_on (run bare_light [Turn_on (with_effect ''auto'')])
       (with_effect ''auto'')) = Inr (''D0312C'', None)"
    by (elim conjE) (simp add: k SWITCH_AUTO_def)
  ultimately show ?thesis
    using init_bare absent k by simp
qed

subsection \<open>Turning on with an effect\<close>

text \<open>
  Claim C2, as stated, fails: a turn-on with the effect \<^verbatim>\<open>"rainbow"\<close> writes nothing
  (the call raises for the unassigned local) and caches \<^verbatim>\<open>"rainbow"\<close>, not
  \<^verbatim>\<open>"off"\<close>.
\<close>

theorem turn_on_other_effect_counterexample:
  "ATTR_EFFECT (with_effect ''rainbow'') = Some ''rainbow''
   \<and> ''rainbow'' \<noteq> SWITCH_AUTO
   \<and> fst (async_turn_on scenario_light (with_effect ''rainbow''))
       \<noteq> Inr (self_kind scenario_light, self_off scenario_light)
   \<and> self_attr_effect (snd (async_turn_on scenario_light (with_effect ''rainbow'')))
       = Some ''rainbow''
   \<and> self_attr_effect (snd (async_turn_on scenario_light (with_effect ''rainbow'')))
       \<noteq> Some EFFECT_OFF"
  by (simp add: async_turn_on_def example_defs)

text \<open>
  Claim C2, amended: for every turn-on command carrying an effect argument different
  from \<^verbatim>\<open>"auto"\<close>, the cached effect is set to that very effect string, and no other
  attribute of the entity changes. (Nothing is said about the value written.)
\<close>

theorem turn_on_caches_given_effect:
  assumes "ATTR_EFFECT kw = Some e" and "e \<noteq> SWITCH_AUTO"
  shows "snd (async_turn_on l kw) = l\<lparr>self_attr_effect := Some e\<rparr>"
  using assms by (simp add: async_turn_on_def Let_def)

theorem turn_on_caches_given_effect_witness:
  "ATTR_EFFECT (with_effect ''rainbow'') = Some ''rainbow''
   \<and> ''rainbow'' \<noteq> SWITCH_AUTO
   \<and> snd (async_turn_on scenario_light (with_effect ''rainbow''))
       = scenario_light\<lparr>self_attr_effect := Some ''rainbow''\<rparr>"
proof -
  have h1: "ATTR_EFFECT (with_effect ''rainbow'') = Some ''rainbow''"
    by (simp add: with_effect_def)
  have h2: "''rainbow'' \<noteq> SWITCH_AUTO"
    by (simp add: SWITCH_AUTO_def)
  from turn_on_caches_given_effect [OF h1 h2, of scenario_light] h1 h2
  show ?thesis by simp
qed

text \<open>
  Claim C9: a turn-on with an effect other than \<^verbatim>\<open>"auto"\<close> raises
  \<^verbatim>\<open>UnboundLocalError\<close>, so nothing is written, and the entity keeps the given
  effect string as its cached effect.
\<close>

theorem turn_on_other_effect_raises:
  assumes "ATTR_EFFECT kw = Some e" and "e \<noteq> SWITCH_AUTO"
  shows "async_turn_on l kw = (Inl UnboundLocalError, l\<lparr>self_attr_effect := Some e\<rparr>)"
  using assms by (simp add: async_turn_on_def Let_def)

theorem turn_on_other_effect_raises_witness:
  "ATTR_EFFECT \<lparr>ATTR_EFFECT = Some ''off'', ATTR_BRIGHTNESS = Some 200\<rparr> = Some ''off''
   \<and> ''off'' \<noteq> SWITCH_AUTO
   \<and> async_turn_on (scenario_light\<lparr>self_attr_effect := Some ''auto''\<rparr>)
        \<lparr>ATTR_EFFECT = Some ''off'', ATTR_BRIGHTNESS = Some 200\<rparr>
       = (Inl UnboundLocalError, scenario_light\<lparr>self_attr_effect := Some ''off''\<rparr>)"
proof -
  have h1: "ATTR_EFFECT \<lparr>ATTR_EFFECT = Some ''off'', ATTR_BRIGHTNESS = Some 200\<rparr> = Some ''off''"
    by simp
  have h2: "''off'' \<noteq> SWITCH_AUTO"
    by (simp add: SWITCH_AUTO_def)
  from turn_on_other_effect_raises [OF h1 h2,
      of "scenario_light\<lparr>self_attr_effect := Some ''auto''\<rparr>"] h2
  show ?thesis by simp
qed

text \<open>
  Claim C10: a turn-on with the effect \<^verbatim>\<open>"auto"\<close> writes the auto value of the
  entity, \<^verbatim>\<open>None\<close> included, whatever brightness comes with it: the result is the
  same for every brightness argument and for none.
\<close>

theorem turn_on_auto_ignores_brightness:
  assumes "ATTR_EFFECT kw = Some SWITCH_AUTO"
  shows "async_turn_on l kw =
           (Inr (self_kind l, self_auto l), l\<lparr>self_attr_effect := Some SWITCH_AUTO\<rparr>)
     \<and> async_turn_on l (kw\<lparr>ATTR_BRIGHTNESS := b\<rparr>) = async_turn_on l kw"
  using assms by (simp add: async_turn_on_def Let_def)

theorem turn_on_auto_ignores_brightness_witness:
  "ATTR_EFFECT \<lparr>ATTR_EFFECT = Some ''auto'', ATTR_BRIGHTNESS = Some 10\<rparr> = Some SWITCH_AUTO
   \<and> async_turn_on scenario_light \<lparr>ATTR_EFFECT = Some ''auto'', ATTR_BRIGHTNESS = Some 10\<rparr>
       = (Inr (''D0312C'', Some 3), scenario_light\<lparr>self_attr_effect := Some ''auto''\<rparr>)"
proof -
  have h: "ATTR_EFFECT \<lparr>ATTR_EFFECT = Some ''auto'', ATTR_BRIGHTNESS = Some 10\<rparr>
      = Some SWITCH_AUTO"
    by (simp add: SWITCH_AUTO_def)
  have k: "self_kind scenario_light = ''D0312C''" "self_auto scenario_light = Some 3"
    by (simp_all add: scenario_light_def)
  from turn_on_auto_ignores_brightness [OF h, of scenario_light None] h
  show ?thesis by (simp add: k SWITCH_AUTO_def)
qed

subsection \<open>Reading the state\<close>

text \<open>
  Claim C7: for every entity with an off value and every raw value \<open>v\<close> of its
  control, \<^verbatim>\<open>is_on\<close> is true exactly when \<open>v\<close> differs from the off value, whatever
  the cached effect and the other attributes are; at the off value itself it is false.
\<close>

theorem is_on_iff_not_off:
  assumes "self_off l = Some off_value" and "status (self_kind l) = Some v"
  shows "is_on l status = Inr (v \<noteq> off_value)
     \<and> is_on (l\<lparr>self_attr_effect := e\<rparr>) status = Inr (v \<noteq> off_value)
     \<and> is_on l (status(self_kind l \<mapsto> off_value)) = Inr False"
  using assms by (simp add: is_on_def)

theorem is_on_iff_not_off_witness:
  "self_off scenario_light = Some 0
   \<and> raw_status ''D0312C'' 3 (self_kind scenario_light) = Some 3
   \<and> is_on scenario_light (raw_status ''D0312C'' 3) = Inr True
   \<and> is_on scenario_light ((raw_status ''D0312C'' 3)(self_kind scenario_light \<mapsto> 0))
       = Inr False"
proof -
  have h1: "self_off scenario_light = Some 0"
    by (simp add: scenario_light_def)
  have h2: "raw_status ''D0312C'' 3 (self_kind scenario_light) = Some 3"
    by (simp add: scenario_light_def raw_status_def)
  from is_on_iff_not_off
      [of scenario_light 0 "raw_status ''D0312C'' 3" 3 None, OF h1 h2] h1 h2
  show ?thesis by simp
qed

text \<open>
  Claim C8: for every description whose \<^verbatim>\<open>dimmable\<close> is false (or absent), the
  brightness of the constructed entity is \<^verbatim>\<open>None\<close> for every snapshot of the
  device and every cached effect, and the read changes nothing.
\<close>

theorem brightness_none_unless_dimmable:
  assumes "PhilipsLight_init device_id description light = Inr l"
    and "get_DIMMABLE description \<noteq> Some True"
  shows "brightness (l\<lparr>self_attr_effect := e\<rparr>) status
           = (Inr None, l\<lparr>self_attr_effect := e\<rparr>)"
proof -
  have "\<not> self_dimmable l"
    using init_fields(1) [OF assms(1)] assms(2) by simp
  then have "\<not> self_dimmable (l\<lparr>self_attr_effect := e\<rparr>)"
    by simp
  then show ?thesis
    by (rule brightness_not_dimmable)
qed

theorem brightness_none_unless_dimmable_witness:
  "PhilipsLight_init (Some ''a1b2'') onoff_description ''D0312C#1'' = Inr onoff_light
   \<and> get_DIMMABLE onoff_description \<noteq> Some True
   \<and> brightness (onoff_light\<lparr>self_attr_effect := Some ''auto''\<rparr>) (raw_status ''D0312C'' 3)
       = (Inr None, onoff_light\<lparr>self_attr_effect := Some ''auto''\<rparr>)"
proof -
  have h: "get_DIMMABLE onoff_description \<noteq> Some True"
    by (simp add: onoff_description_def)
  from brightness_none_unless_dimmable [OF init_onoff h] init_onoff h
  show ?thesis by simp
qed

text \<open>
  Claim C5, as stated, fails: the tests for auto and medium are truth tests, so an auto
  value of \<^verbatim>\<open>0\<close> counts as no auto value. For
  \<^verbatim>\<open>{on: 100, off: 1, medium: 50, auto: 0, dimmable: True}\<close> the raw value 0 equals
  the auto value and the cached effect is not \<^verbatim>\<open>"auto"\<close>, yet the read returns the
  brightness 0 and leaves the cached effect alone.
\<close>

theorem zero_auto_value_counterexample:
  "PhilipsLight_init (Some ''a1b2'') zero_auto_description ''D0312C#1'' = Inr zero_auto_light
   \<and> self_dimmable zero_auto_light
   \<and> self_auto zero_auto_light = Some 0
   \<and> self_medium zero_auto_light = Some 50
   \<and> self_attr_effect zero_auto_light \<noteq> Some SWITCH_AUTO
   \<and> raw_status ''D0312C'' 0 (self_kind zero_auto_light) = self_auto zero_auto_light
   \<and> brightness zero_auto_light (raw_status ''D0312C'' 0) = (Inr (Some 0), zero_auto_light)
   \<and> fst (brightness zero_auto_light (raw_status ''D0312C'' 0)) \<noteq> Inr None
   \<and> self_attr_effect (snd (brightness zero_auto_light (raw_status ''D0312C'' 0)))
       \<noteq> Some SWITCH_AUTO"
  by (simp add: PhilipsLight_init_def brightness_def truthy_def py_round_div_small
      round_half_even_def example_defs)

text \<open>
  Claim C5, amended: for every dimmable entity whose auto value and medium value are
  both configured and non-zero, if the cached effect is not \<^verbatim>\<open>"auto"\<close> and the raw
  value equals the auto value, then reading the brightness returns \<^verbatim>\<open>None\<close> and
  sets the cached effect to \<^verbatim>\<open>"auto"\<close>.
\<close>

theorem brightness_detects_auto:
  assumes "self_dimmable l"
    and "self_auto l = Some a" and "a \<noteq> 0"
    and "self_medium l = Some m" and "m \<noteq> 0"
    and "self_attr_effect l \<noteq> Some SWITCH_AUTO"
    and "status (self_kind l) = Some a"
  shows "brightness l status = (Inr None, l\<lparr>self_attr_effect := Some SWITCH_AUTO\<rparr>)"
  using assms by (simp add: brightness_def truthy_def)

theorem brightness_detects_auto_witness:
  "self_dimmable scenario_light
   \<and> self_auto scenario_light = Some 3 \<and> (3::int) \<noteq> 0
   \<and> self_medium scenario_light = Some 1 \<and> (1::int) \<noteq> 0
   \<and> self_attr_effect scenario_light \<noteq> Some SWITCH_AUTO
   \<and> raw_status ''D0312C'' 3 (self_kind scenario_light) = Some 3
   \<and> brightness scenario_light (raw_status ''D0312C'' 3)
       = (Inr None, scenario_light\<lparr>self_attr_effect := Some ''auto''\<rparr>)"
proof -
  have h: "self_dimmable scenario_light" "self_auto scenario_light = Some 3" "(3::int) \<noteq> 0"
    "self_medium scenario_light = Some 1" "(1::int) \<noteq> 0"
    "self_attr_effect scenario_light \<noteq> Some SWITCH_AUTO"
    "raw_status ''D0312C'' 3 (self_kind scenario_light) = Some 3"
    by (simp_all add: scenario_light_def raw_status_def SWITCH_AUTO_def)
  from brightness_detects_auto
      [of scenario_light 3 1 "raw_status ''D0312C'' 3", OF h] h
  show ?thesis by (simp add: SWITCH_AUTO_def)
qed

subsection \<open>The scenario\<close>

text \<open>
  Claim C3, as stated, fails: in the sequence the read of the raw value 3 sets the
  cached effect to \<^verbatim>\<open>"auto"\<close>, and with that cached effect the next read, of the raw
  value 1, returns \<^verbatim>\<open>None\<close> by the first test of \<^verbatim>\<open>brightness\<close>, not 128.
\<close>

theorem scenario_sequence_counterexample:
  "PhilipsLight_init (Some ''a1b2'') scenario_description ''D0312C#1'' = Inr scenario_light
   \<and> self_attr_effect scenario_light = Some ''off''
   \<and> brightness scenario_light (raw_status ''D0312C'' 3)
       = (Inr None, scenario_light\<lparr>self_attr_effect := Some ''auto''\<rparr>)
   \<and> run scenario_light [Read_brightness (raw_status ''D0312C'' 3)]
       = scenario_light\<lparr>self_attr_effect := Some ''auto''\<rparr>
   \<and> fst (brightness (run scenario_light [Read_brightness (raw_status ''D0312C'' 3)])
         (raw_status ''D0312C'' 1)) = Inr None
   \<and> fst (brightness (run scenario_light [Read_brightness (raw_status ''D0312C'' 3)])
         (raw_status ''D0312C'' 1)) \<noteq> Inr (Some 128)"
  by (simp add: PhilipsLight_init_def brightness_def truthy_def example_defs)

text \<open>
  Claim C3, amended: for the description \<^verbatim>\<open>{on: 2, off: 0, medium: 1, auto: 3,
  dimmable: True}\<close> the constructed entity has the cached effect \<^verbatim>\<open>"off"\<close>. With
  that cached effect, reading raw 3 yields \<^verbatim>\<open>None\<close> and sets the cached effect to
  \<^verbatim>\<open>"auto"\<close>, reading raw 1 yields 128 and reading raw 2 yields 255; once the cached
  effect is \<^verbatim>\<open>"auto"\<close>, the reads of raw 1 and raw 2 yield \<^verbatim>\<open>None\<close>. With either
  cached effect, the effect \<^verbatim>\<open>"auto"\<close> writes 3, the brightness 10 writes 1 and the
  brightness 255 writes 2.
\<close>

theorem scenario_behaviour:
  "PhilipsLight_init (Some ''a1b2'') scenario_description ''D0312C#1'' = Inr scenario_light
   \<and> self_attr_effect scenario_light = Some ''off''
   \<and> brightness scenario_light (raw_status ''D0312C'' 3)
       = (Inr None, scenario_light\<lparr>self_attr_effect := Some ''auto''\<rparr>)
   \<and> brightness scenario_light (raw_status ''D0312C'' 1) = (Inr (Some 128), scenario_light)
   \<and> brightness scenario_light (raw_status ''D0312C'' 2) = (Inr (Some 255), scenario_light)
   \<and> fst (brightness (scenario_light\<lparr>self_attr_effect := Some ''auto''\<rparr>)
         (raw_status ''D0312C'' 1)) = Inr None
   \<and> fst (brightness (scenario_light\<lparr>self_attr_effect := Some ''auto''\<rparr>)
         (raw_status ''D0312C'' 2)) = Inr None
   \<and> fst (async_turn_on (scenario_light\<lparr>self_attr_effect := e\<rparr>) (with_effect ''auto''))
       = Inr (''D0312C'', Some 3)
   \<and> fst (async_turn_on (scenario_light\<lparr>self_attr_effect := e\<rparr>) (with_brightness 10))
       = Inr (''D0312C'', Some 1)
   \<and> fst (async_turn_on (scenario_light\<lparr>self_attr_effect := e\<rparr>) (with_brightness 255))
       = Inr (''D0312C'', Some 2)"
  by (simp add: PhilipsLight_init_def brightness_def async_turn_on_def truthy_def
      py_round_div_small round_half_even_def example_defs)

subsection \<open>The cached effect over a sequence of calls\<close>

text \<open>
  Claim C6, as stated, fails: the entity of the scenario starts with the cached effect
  \<^verbatim>\<open>"off"\<close>, and one turn-on with the effect \<^verbatim>\<open>"rainbow"\<close> leaves the cached
  effect \<^verbatim>\<open>"rainbow"\<close>, which is neither \<^verbatim>\<open>"off"\<close> nor \<^verbatim>\<open>"auto"\<close>.
\<close>

theorem cached_effect_counterexample:
  "PhilipsLight_init (Some ''a1b2'') scenario_description ''D0312C#1'' = Inr scenario_light
   \<and> self_attr_effect scenario_light = Some EFFECT_OFF
   \<and> self_attr_effect (run scenario_light [Turn_on (with_effect ''rainbow'')])
       = Some ''rainbow''
   \<and> self_attr_effect (run scenario_light [Turn_on (with_effect ''rainbow'')])
       \<notin> {Some EFFECT_OFF, Some SWITCH_AUTO}"
  by (simp add: PhilipsLight_init_def async_turn_on_def truthy_def example_defs)

text \<open>
  Claim C6, amended: starting from the cached effect \<^verbatim>\<open>"off"\<close>, after any sequence
  of reads, turn-on and turn-off commands the cached effect is \<^verbatim>\<open>"off"\<close>,
  \<^verbatim>\<open>"auto"\<close>, or an effect string that one of the turn-on commands of the sequence
  carried.
\<close>

theorem cached_effect_invariant:
  assumes "self_attr_effect l = Some EFFECT_OFF"
  shows "self_attr_effect (run l ops) \<in>
     {Some EFFECT_OFF, Some SWITCH_AUTO} \<union> Some ` effects_of ops"
  using run_effect [of l ops] assms by auto

theorem cached_effect_invariant_witness:
  "self_attr_effect scenario_light = Some EFFECT_OFF
   \<and> self_attr_effect
        (run scenario_light
          [Read_brightness (raw_status ''D0312C'' 3), Turn_on (with_brightness 10),
           Turn_off, Turn_on (with_effect ''auto'')])
       \<in> {Some EFFECT_OFF, Some SWITCH_AUTO}"
proof -
  have h: "self_attr_effect scenario_light = Some EFFECT_OFF"
    by (simp add: scenario_light_def EFFECT_OFF_def)
  have e: "effects_of
      [Read_brightness (raw_status ''D0312C'' 3), Turn_on (with_brightness 10),
       Turn_off, Turn_on (with_effect ''auto'')] = {SWITCH_AUTO}"
    by (simp add: with_brightness_def with_effect_def SWITCH_AUTO_def)
  have "self_attr_effect
        (run scenario_light
          [Read_brightness (raw_status ''D0312C'' 3), Turn_on (with_brightness 10),
           Turn_off, Turn_on (with_effect ''auto'')])
       \<in> {Some EFFECT_OFF, Some SWITCH_AUTO} \<union> Some ` {SWITCH_AUTO}"
    using cached_effect_invariant [OF h,
      of "[Read_brightness (raw_status ''D0312C'' 3), Turn_on (with_brightness 10),
           Turn_off, Turn_on (with_effect ''auto'')]"]
    unfolding e .
  then have "self_attr_effect
        (run scenario_light
          [Read_brightness (raw_status ''D0312C'' 3), Turn_on (with_brightness 10),
           Turn_off, Turn_on (with_effect ''auto'')])
       \<in> {Some EFFECT_OFF, Some SWITCH_AUTO}"
    by blast
  with h show ?thesis
    by (rule conjI)
qed

subsection \<open>Writing a brightness and reading it back\<close>

text \<open>
  Beyond \<open>2 ^ 52\<close> the division no longer gives the exact quotient: with the on value
  \<open>2 ^ 53 + 1\<close> the brightness 255 is written as \<open>2 ^ 53\<close>, and with the on value
  \<open>10 ^ 309\<close> the division raises \<^verbatim>\<open>OverflowError\<close> and nothing is written.
\<close>

lemma turn_on_rounds_in_double:
  "py_round_div ((2 ^ 53 + 1) * 255) 255 = Inr (2 ^ 53)"
  by code_simp

lemma turn_on_overflows:
  "async_turn_on (dimmer_light (10 ^ 309)) (with_brightness 255)
     = (Inl OverflowError, dimmer_light (10 ^ 309))"
proof -
  have "py_round_div (10 ^ 309 * 255) 255 = Inl OverflowError"
    by code_simp
  then show ?thesis
    by (simp add: async_turn_on_def truthy_def dimmer_light_def with_brightness_def)
qed




end
